theory Spec2Isabelle
  imports Complex_Main
begin

section \<open>Python values shared by the three modules\<close>

text \<open>
  The exceptions that the modelled code can raise. \<open>UnboundLocalError\<close> carries the name
  of the local variable that was read before any assignment, \<open>AttributeError\<close> its message.
\<close>

datatype error =
    ZeroDivisionError
  | IndexError
  | UnboundLocalError string
  | AttributeError string

text \<open>
  Python's \<open>xs[i]\<close> for a non-negative index: out of range raises \<open>IndexError\<close>.
\<close>

definition getitem :: "'a list \<Rightarrow> nat \<Rightarrow> error + 'a" where
  "getitem xs i = (if i < length xs then Inr (xs ! i) else Inl IndexError)"

text \<open>
  \<open>"{}".format(n)\<close> for a non-negative integer: its decimal digits, most significant first.
\<close>

definition digit :: "nat \<Rightarrow> char" where
  "digit d = ''0123456789'' ! d"

fun str :: "nat \<Rightarrow> string" where
  "str n = (if n < 10 then [digit n] else str (n div 10) @ [digit (n mod 10)])"

declare str.simps [simp del]

section \<open>models/visual\_models.py\<close>

subsection \<open>Modules and containers\<close>

text \<open>
  One layer specification of \<open>filter_channel_sizes\<close>: the tuple
  \<open>(in_channels, out_channels, kernel_size, stride, padding)\<close>.
\<close>

type_synonym filter_size = "int \<times> int \<times> int \<times> int \<times> int"

definition fs_in_channels :: "filter_size \<Rightarrow> int" where
  "fs_in_channels fs = (case fs of (a, b, c, d, e) \<Rightarrow> a)"

definition fs_out_channels :: "filter_size \<Rightarrow> int" where
  "fs_out_channels fs = (case fs of (a, b, c, d, e) \<Rightarrow> b)"

definition fs_kernel :: "filter_size \<Rightarrow> int" where
  "fs_kernel fs = (case fs of (a, b, c, d, e) \<Rightarrow> c)"

definition fs_stride :: "filter_size \<Rightarrow> int" where
  "fs_stride fs = (case fs of (a, b, c, d, e) \<Rightarrow> d)"

definition fs_padding :: "filter_size \<Rightarrow> int" where
  "fs_padding fs = (case fs of (a, b, c, d, e) \<Rightarrow> e)"

text \<open>
  The torch modules that the constructor instantiates, each recording the arguments it is
  given: \<open>BatchNorm2d num_features\<close>, \<open>Conv2d in_channels out_channels kernel_size stride
  padding\<close>, \<open>Dropout p\<close>, \<open>ReLU\<close> and \<open>ConvTranspose2d in_channels out_channels kernel_size
  stride padding output_padding\<close>. The convolutions are always built with \<open>bias=False\<close> and
  the activations with \<open>inplace=True\<close>, so these are not recorded. \<open>output_padding\<close> is the
  Python \<open>bool\<close> that the constructor passes, kept as the truth value that it is.
\<close>

datatype module =
    BatchNorm2d int
  | Conv2d int int int int int
  | Dropout real
  | ReLU
  | ConvTranspose2d int int int int int bool

text \<open>
  \<open>nn.ConvTranspose2d\<close> keeps its \<open>output_padding\<close> argument as a pair, one entry for
  the height and one for the width; a single value, which is what the constructor passes,
  is used for both. Other modules have no such attribute.
\<close>

fun output_padding_pair :: "module \<Rightarrow> (bool \<times> bool) option" where
  "output_padding_pair (ConvTranspose2d ci co kernel_size stride padding output_padding) =
     Some (output_padding, output_padding)"
| "output_padding_pair m = None"

text \<open>
  \<open>nn.Sequential\<close> keeps its children in an ordered dictionary: \<open>add_module\<close> under a new
  name appends, under a name already present it replaces the child in place.
\<close>

type_synonym sequential = "(string \<times> module) list"

fun add_module :: "string \<Rightarrow> module \<Rightarrow> sequential \<Rightarrow> sequential" where
  "add_module nm m [] = [(nm, m)]"
| "add_module nm m ((k, v) # ps) =
     (if k = nm then (nm, m) # ps else (k, v) # add_module nm m ps)"

subsection \<open>Spatial sizes\<close>

text \<open>
  The \<open>Conv2d\<close> output size as the constructor computes it (one spatial dimension);
  \<open>//\<close> is Python's floor division, which raises on a zero divisor.
\<close>

definition conv_out :: "int \<Rightarrow> int \<Rightarrow> int \<Rightarrow> int \<Rightarrow> error + int" where
  "conv_out s kernel_size stride padding =
     (if stride = 0 then Inl ZeroDivisionError
      else Inr (((s + 2 * padding - (kernel_size - 1) - 1) div stride) + 1))"

text \<open>
  The estimated \<open>ConvTranspose2d\<close> output size as the constructor computes it, that is
  without output padding.
\<close>

definition deconv_estimate :: "int \<Rightarrow> int \<Rightarrow> int \<Rightarrow> int \<Rightarrow> int" where
  "deconv_estimate s kernel_size stride padding =
     (s - 1) * stride - 2 * padding + (kernel_size - 1) + 1"

subsection \<open>The constructor of VisAutoEncoder\<close>

record vis_autoencoder =
  in_size :: "int \<times> int"
  name :: string
  encoder :: sequential
  decoder :: sequential

text \<open>
  The locals of the first loop: the encoder built so far, \<open>size_list\<close>, and the pair
  \<open>h_out, w_out\<close>, which is unbound until the first iteration has assigned it.
\<close>

type_synonym enc_locals = "sequential \<times> (int \<times> int) list \<times> (int \<times> int) option"

text \<open>One iteration of the loop over \<open>enumerate(filter_channel_sizes)\<close>.\<close>

fun enc_layer ::
  "int \<times> int \<Rightarrow> bool \<Rightarrow> real \<Rightarrow> nat \<Rightarrow> filter_size \<Rightarrow> enc_locals \<Rightarrow> error + enc_locals" where
  "enc_layer insz dropout dropout_val i (in_channels, out_channels, kernel_size, stride, padding)
             (enc, size_list', hw_out) =
     (let enc1 = add_module (''conv'' @ str (i + 1))
                   (Conv2d in_channels out_channels kernel_size stride padding) enc
      in case (if i = 0 then Inr insz
               else (case hw_out of
                       None \<Rightarrow> Inl (UnboundLocalError ''h_out'')
                     | Some hw \<Rightarrow> Inr hw)) of
           Inl e \<Rightarrow> Inl e
         | Inr (h, w) \<Rightarrow>
            (case conv_out h kernel_size stride padding of
               Inl e \<Rightarrow> Inl e
             | Inr h_out \<Rightarrow>
                (case conv_out w kernel_size stride padding of
                   Inl e \<Rightarrow> Inl e
                 | Inr w_out \<Rightarrow>
                    (let size_list'' = size_list' @ [(h_out, w_out)];
                         enc2 = (if dropout
                                 then add_module (''dropout'' @ str (i + 1))
                                        (Dropout dropout_val) enc1
                                 else enc1);
                         enc3 = add_module (''relu'' @ str (i + 1)) ReLU enc2
                     in Inr (enc3, size_list'', Some (h_out, w_out))))))"

fun enc_loop ::
  "int \<times> int \<Rightarrow> bool \<Rightarrow> real \<Rightarrow> nat \<Rightarrow> filter_size list \<Rightarrow> enc_locals \<Rightarrow> error + enc_locals" where
  "enc_loop insz dropout dropout_val i [] st = Inr st"
| "enc_loop insz dropout dropout_val i (fs # rest) st =
     (case enc_layer insz dropout dropout_val i fs st of
        Inl e \<Rightarrow> Inl e
      | Inr st' \<Rightarrow> enc_loop insz dropout dropout_val (Suc i) rest st')"

text \<open>
  The constructor up to the end of the first loop: the encoder starts with the batch
  normalisation over the \<open>in_channels\<close> argument and \<open>size_list\<close> with the input size.
\<close>

definition build_encoder ::
  "filter_size list \<Rightarrow> int \<Rightarrow> int \<times> int \<Rightarrow> bool \<Rightarrow> real \<Rightarrow> error + enc_locals" where
  "build_encoder filter_channel_sizes in_channels insz dropout dropout_val =
     enc_loop insz dropout dropout_val 0 filter_channel_sizes
       (add_module ''batchnorm1'' (BatchNorm2d in_channels) [],
        [(fst insz, snd insz)], None)"

text \<open>
  One iteration of the loop over \<open>enumerate(reversed(filter_channel_sizes))\<close>; \<open>size_list\<close>
  is the reversed list here. The width estimate \<open>w_in\<close> is computed as in the source.
\<close>

fun dec_layer ::
  "(int \<times> int) list \<Rightarrow> nat \<Rightarrow> filter_size \<Rightarrow> sequential \<Rightarrow> error + sequential" where
  "dec_layer size_list' i (c0, c1, kernel_size, stride, padding) dec =
     (let in_channels = c1; out_channels = c0
      in case getitem size_list' i of
           Inl e \<Rightarrow> Inl e
         | Inr cur \<Rightarrow>
            (let h_in = deconv_estimate (fst cur) kernel_size stride padding;
                 w_in = deconv_estimate (snd cur) kernel_size stride padding
             in case getitem size_list' (i + 1) of
                  Inl e \<Rightarrow> Inl e
                | Inr nxt \<Rightarrow>
                   (let output_padding = (h_in \<noteq> fst nxt);
                        dec1 = add_module (''deconv'' @ str (i + 1))
                                 (ConvTranspose2d in_channels out_channels kernel_size stride
                                    padding output_padding) dec
                    in Inr (add_module (''relu'' @ str (i + 1)) ReLU dec1))))"

fun dec_loop ::
  "(int \<times> int) list \<Rightarrow> nat \<Rightarrow> filter_size list \<Rightarrow> sequential \<Rightarrow> error + sequential" where
  "dec_loop size_list' i [] dec = Inr dec"
| "dec_loop size_list' i (fs # rest) dec =
     (case dec_layer size_list' i fs dec of
        Inl e \<Rightarrow> Inl e
      | Inr dec' \<Rightarrow> dec_loop size_list' (Suc i) rest dec')"

definition VisAutoEncoder ::
  "filter_size list \<Rightarrow> string \<Rightarrow> int \<Rightarrow> int \<times> int \<Rightarrow> bool \<Rightarrow> real \<Rightarrow> error + vis_autoencoder" where
  "VisAutoEncoder filter_channel_sizes nm in_channels insz dropout dropout_val =
     (case build_encoder filter_channel_sizes in_channels insz dropout dropout_val of
        Inl e \<Rightarrow> Inl e
      | Inr (enc, size_list', hw_out) \<Rightarrow>
         (case dec_loop (rev size_list') 0 (rev filter_channel_sizes) [] of
            Inl e \<Rightarrow> Inl e
          | Inr dec \<Rightarrow>
             Inr \<lparr>in_size = insz, name = nm, encoder = enc, decoder = dec\<rparr>))"

subsection \<open>The example of test\_autoencoder\<close>

text \<open>The layer specifications that \<open>test_autoencoder\<close> passes to the constructor.\<close>

definition test_filter_channel_sizes :: "filter_size list" where
  "test_filter_channel_sizes = [(3, 128, 7, 1, 4), (128, 256, 3, 2, 2), (256, 512, 3, 2, 2)]"

section \<open>The pipeline around the model\<close>

subsection \<open>What the pipeline takes from outside\<close>

text \<open>
  \<open>Options\<close> (options/options.py) as far as train.py and embedding.py read it.
  \<open>visual_aa_args\<close> is the dictionary of keyword arguments for the constructor; a key that
  is absent leaves the constructor's default in place.
\<close>

record vis_kwargs =
  kw_name :: "string option"
  kw_in_channels :: "int option"
  kw_in_size :: "(int \<times> int) option"
  kw_dropout :: "bool option"
  kw_dropout_val :: "real option"

record options =
  visual_aa :: "filter_size list"
  visual_aa_args :: vis_kwargs
  epoch_num :: int
  batch_size :: int
  regularize :: bool
  reg_norm :: real
  reg_penalty :: real
  lll_neighbors :: int
  n_clusters :: int

text \<open>
  A loaded dataset (util/dataloader.py): its mode, its batches, each with the path of its
  file (a loader built without \<open>return_path\<close> yields the first components only), and the
  table of the dataset.
\<close>

record ('t, 'df) dataset =
  mode :: string
  batches :: "('t \<times> string) list"
  data :: 'df

text \<open>A model: the architecture that the constructor built, and its parameters.\<close>

record 'w net =
  arch :: vis_autoencoder
  state_dict :: 'w

text \<open>
  The numerical libraries and the repository's data loader are parameters of the model:
  tensors and arrays have type \<open>'t\<close>, parameter sets \<open>'w\<close>, tables \<open>'df\<close>. A call that can
  raise returns a sum.
  \<^item> \<open>DataLoader opt return_path\<close>: \<open>dl.DataLoader\<close>;
  \<^item> \<open>init_params\<close>: the initial parameters of a new model;
  \<open>load_state_dict\<close>: the parameters read from a checkpoint;
  \<^item> \<open>train_step opt self w batch\<close>: zero the gradients, run the model, compute the loss
    (with the regulariser \<open>l_n_reg\<close> if \<open>opt.regularize\<close>), back-propagate and let the
    optimiser step;
  \<^item> \<open>to_device x\<close>: \<open>x.to(device)\<close>;
  \<^item> \<open>forward_seq seq w x\<close>: apply a \<open>Sequential\<close> of the model to a tensor;
  \<^item> \<open>tensor_sum dims x\<close>, \<open>tensor_shape x\<close>, \<open>tensor_reshape shape x\<close>: torch's \<open>sum\<close>,
    \<open>shape\<close> and \<open>reshape\<close>;
  \<^item> \<open>data_frame\<close>: \<open>pd.DataFrame(data = encodings).T\<close>; \<open>to_numpy\<close>;
  \<^item> \<open>locally_linear_embedding x n_neighbors n_components\<close> and \<open>k_means x n_clusters\<close>
    (centroids and labels) of scikit-learn;
  \<^item> \<open>embeddings_frame encodings embeds labels\<close>: the table of paths, embedding
    coordinates and labels that lines 132 to 135 of embedding.py build;
  \<^item> \<open>join_new_col\<close>: the dataset's method of that name.
\<close>

record ('t, 'w, 'df) library =
  DataLoader :: "options \<Rightarrow> bool \<Rightarrow> error + ('t, 'df) dataset"
  init_params :: "vis_autoencoder \<Rightarrow> 'w"
  load_state_dict :: "vis_autoencoder \<Rightarrow> 'w \<Rightarrow> error + 'w"
  train_step :: "options \<Rightarrow> vis_autoencoder \<Rightarrow> 'w \<Rightarrow> 't \<Rightarrow> error + 'w"
  to_device :: "'t \<Rightarrow> error + 't"
  forward_seq :: "sequential \<Rightarrow> 'w \<Rightarrow> 't \<Rightarrow> error + 't"
  tensor_sum :: "nat list \<Rightarrow> 't \<Rightarrow> error + 't"
  tensor_shape :: "'t \<Rightarrow> nat list"
  tensor_reshape :: "int list \<Rightarrow> 't \<Rightarrow> error + 't"
  data_frame :: "(string \<times> 't) list \<Rightarrow> error + 'df"
  to_numpy :: "'df \<Rightarrow> 't"
  locally_linear_embedding :: "'t \<Rightarrow> int \<Rightarrow> int \<Rightarrow> error + 't"
  k_means :: "'t \<Rightarrow> int \<Rightarrow> error + 't list \<times> 't"
  embeddings_frame :: "'df \<Rightarrow> 't \<Rightarrow> 't \<Rightarrow> error + 'df"
  join_new_col :: "('t, 'df) dataset \<Rightarrow> 'df \<Rightarrow> error + ('t, 'df) dataset"

text \<open>
  The files that the pipeline reads and writes, and a log of what has been done to models:
  a model was constructed, the optimiser stepped, a checkpoint was saved, the decoder ran.
\<close>

datatype event = Constructed | Stepped | Saved string | Decoded

record ('w, 'df) world =
  ckpts :: "(string \<times> 'w) list"
  csvs :: "(string \<times> 'df) list"
  events :: "event list"

text \<open>Assignment to a dictionary key: a key already present keeps its place.\<close>

fun setitem :: "'k \<Rightarrow> 'v \<Rightarrow> ('k \<times> 'v) list \<Rightarrow> ('k \<times> 'v) list" where
  "setitem k v [] = [(k, v)]"
| "setitem k v ((k', v') # ps) =
     (if k' = k then (k, v) # ps else (k', v') # setitem k v ps)"

definition log_event :: "event \<Rightarrow> ('w, 'df) world \<Rightarrow> ('w, 'df) world" where
  "log_event ev w = w\<lparr>events := events w @ [ev]\<rparr>"

text \<open>
  The call \<open>VisAutoEncoder(opt.visual_aa, **opt.visual_aa_args)\<close>, with the constructor's
  defaults for the keywords that the dictionary does not have.
\<close>

definition new_model :: "options \<Rightarrow> error + vis_autoencoder" where
  "new_model opt =
     (let kw = visual_aa_args opt
      in VisAutoEncoder (visual_aa opt)
           (case kw_name kw of None \<Rightarrow> ''default_model'' | Some n \<Rightarrow> n)
           (case kw_in_channels kw of None \<Rightarrow> 3 | Some c \<Rightarrow> c)
           (case kw_in_size kw of None \<Rightarrow> (256, 256) | Some s \<Rightarrow> s)
           (case kw_dropout kw of None \<Rightarrow> True | Some d \<Rightarrow> d)
           (case kw_dropout_val kw of None \<Rightarrow> 0.2 | Some v \<Rightarrow> v))"

subsection \<open>train.py\<close>

text \<open>\<open>model.save()\<close> with the default \<open>save_path\<close>.\<close>

definition save :: "'w net \<Rightarrow> ('w, 'df) world \<Rightarrow> ('w, 'df) world" where
  "save model w =
     (let path = ''ckpts/'' @ name (arch model) @ ''.pt''
      in log_event (Saved path) (w\<lparr>ckpts := setitem path (state_dict model) (ckpts w)\<rparr>))"

text \<open>The loop over the batches of one epoch.\<close>

fun train_batches ::
  "('t, 'w, 'df) library \<Rightarrow> options \<Rightarrow> 't list \<Rightarrow> 'w net \<Rightarrow> ('w, 'df) world
     \<Rightarrow> (error + 'w net) \<times> ('w, 'df) world" where
  "train_batches lib opt [] model w = (Inr model, w)"
| "train_batches lib opt (batch # rest) model w =
     (case to_device lib batch of
        Inl e \<Rightarrow> (Inl e, w)
      | Inr batch' \<Rightarrow>
         (case train_step lib opt (arch model) (state_dict model) batch' of
            Inl e \<Rightarrow> (Inl e, w)
          | Inr sd \<Rightarrow>
             train_batches lib opt rest (model\<lparr>state_dict := sd\<rparr>) (log_event Stepped w)))"

text \<open>
  The loop over \<open>range(1, opt.epoch_num + 1)\<close>, by the number of epochs still to run; the
  model is saved at the end of each epoch.
\<close>

fun train_epochs ::
  "('t, 'w, 'df) library \<Rightarrow> options \<Rightarrow> 't list \<Rightarrow> nat \<Rightarrow> 'w net \<Rightarrow> ('w, 'df) world
     \<Rightarrow> (error + 'w net) \<times> ('w, 'df) world" where
  "train_epochs lib opt bs 0 model w = (Inr model, w)"
| "train_epochs lib opt bs (Suc n) model w =
     (case train_batches lib opt bs model w of
        (Inl e, w') \<Rightarrow> (Inl e, w')
      | (Inr model', w') \<Rightarrow> train_epochs lib opt bs n model' (save model' w'))"

definition train ::
  "('t, 'w, 'df) library \<Rightarrow> options \<Rightarrow> ('w, 'df) world
     \<Rightarrow> (error + 'w net) \<times> ('w, 'df) world" where
  "train lib opt w =
     (case DataLoader lib opt False of
        Inl e \<Rightarrow> (Inl e, w)
      | Inr datas \<Rightarrow>
         if mode datas = ''image''
         then (case new_model opt of
                 Inl e \<Rightarrow> (Inl e, w)
               | Inr self \<Rightarrow>
                  train_epochs lib opt (map fst (batches datas)) (nat (epoch_num opt))
                    \<lparr>arch = self, state_dict = init_params lib self\<rparr>
                    (log_event Constructed w))
         else (Inl (AttributeError (mode datas @ '' mode is not supported'')), w))"

subsection \<open>embedding.py\<close>

text \<open>
  \<open>encode_image\<close>. Its local \<open>initial_shape\<close> is assigned in the branch for \<open>quick = False\<close>
  only; the \<open>return\<close> statement reads it in both.
\<close>

definition encode_image ::
  "('t, 'w, 'df) library \<Rightarrow> 'w net \<Rightarrow> 't \<Rightarrow> bool \<Rightarrow> error + 't \<times> nat list" where
  "encode_image lib model image' quick =
     (case forward_seq lib (encoder (arch model)) (state_dict model) image' of
        Inl e \<Rightarrow> Inl e
      | Inr encoding \<Rightarrow>
         (case (if quick
                then (case tensor_sum lib [1, 2] encoding of
                        Inl e \<Rightarrow> Inl e
                      | Inr v \<Rightarrow> Inr (v, None))
                else (let initial_shape = tensor_shape lib encoding
                      in case tensor_reshape lib [- 1] encoding of
                           Inl e \<Rightarrow> Inl e
                         | Inr v \<Rightarrow> Inr (v, Some initial_shape))) of
            Inl e \<Rightarrow> Inl e
          | Inr (encoding_vector, initial_shape) \<Rightarrow>
             (case initial_shape of
                None \<Rightarrow> Inl (UnboundLocalError ''initial_shape'')
              | Some s \<Rightarrow> Inr (encoding_vector, s))))"

text \<open>
  \<open>decode_images\<close>: the loop over \<open>enumerate(centroid_list)\<close>. The result of
  \<open>encoded_image.to(device)\<close> is not kept.
\<close>

fun decode_loop ::
  "('t, 'w, 'df) library \<Rightarrow> nat list \<Rightarrow> 'w net \<Rightarrow> nat \<Rightarrow> 't list \<Rightarrow> (string \<times> 't) list
     \<Rightarrow> ('w, 'df) world \<Rightarrow> (error + (string \<times> 't) list) \<times> ('w, 'df) world" where
  "decode_loop lib out_shape model i [] image_list w = (Inr image_list, w)"
| "decode_loop lib out_shape model i (encoded_image # rest) image_list w =
     (case tensor_reshape lib (map int out_shape) encoded_image of
        Inl e \<Rightarrow> (Inl e, w)
      | Inr encoded_image' \<Rightarrow>
         (case to_device lib encoded_image' of
            Inl e \<Rightarrow> (Inl e, w)
          | Inr moved \<Rightarrow>
             (case forward_seq lib (decoder (arch model)) (state_dict model) encoded_image' of
                Inl e \<Rightarrow> (Inl e, log_event Decoded w)
              | Inr image' \<Rightarrow>
                 decode_loop lib out_shape model (Suc i) rest
                   (setitem (''label_'' @ str i) image' image_list) (log_event Decoded w))))"

definition decode_images ::
  "('t, 'w, 'df) library \<Rightarrow> 't list \<Rightarrow> nat list \<Rightarrow> 'w net \<Rightarrow> ('w, 'df) world
     \<Rightarrow> (error + (string \<times> 't) list) \<times> ('w, 'df) world" where
  "decode_images lib centroid_list out_shape model w =
     decode_loop lib out_shape model 0 centroid_list [] w"

text \<open>
  The loop that fills \<open>encodings\<close>. Its locals \<open>encoding\<close> and \<open>initial_shape\<close> are unbound
  until the first iteration.
\<close>

fun encode_loop ::
  "('t, 'w, 'df) library \<Rightarrow> 'w net \<Rightarrow> bool \<Rightarrow> ('t \<times> string) list
     \<Rightarrow> (string \<times> 't) list \<times> ('t \<times> nat list) option
     \<Rightarrow> error + (string \<times> 't) list \<times> ('t \<times> nat list) option" where
  "encode_loop lib model quick [] st = Inr st"
| "encode_loop lib model quick ((image', path) # rest) (encodings, latest) =
     (case to_device lib image' of
        Inl e \<Rightarrow> Inl e
      | Inr moved \<Rightarrow>
         (case encode_image lib model moved quick of
            Inl e \<Rightarrow> Inl e
          | Inr (encoding, initial_shape) \<Rightarrow>
             encode_loop lib model quick rest
               (setitem path encoding encodings, Some (encoding, initial_shape))))"

text \<open>
  The model that \<open>generate_embeddings\<close> works with: trained now if \<open>retrain\<close> is set or
  there is no checkpoint, and otherwise built anew with the parameters of the checkpoint.
\<close>

definition get_model ::
  "('t, 'w, 'df) library \<Rightarrow> options \<Rightarrow> bool \<Rightarrow> ('w, 'df) world
     \<Rightarrow> (error + 'w net) \<times> ('w, 'df) world" where
  "get_model lib opt retrain w =
     (case map_of (ckpts w) ''ckpts/default_model.pt'' of
        None \<Rightarrow> train lib opt w
      | Some sd \<Rightarrow>
         if retrain then train lib opt w
         else (case new_model opt of
                 Inl e \<Rightarrow> (Inl e, w)
               | Inr self \<Rightarrow>
                  (case load_state_dict lib self sd of
                     Inl e \<Rightarrow> (Inl e, log_event Constructed w)
                   | Inr sd' \<Rightarrow>
                      (Inr \<lparr>arch = self, state_dict = sd'\<rparr>, log_event Constructed w))))"

text \<open>
  The encodings, computed by the model and written to data/encodings.csv. The \<open>print\<close>
  after the loop reads \<open>encoding\<close> and \<open>initial_shape\<close>.
\<close>

definition make_encodings ::
  "('t, 'w, 'df) library \<Rightarrow> 'w net \<Rightarrow> bool \<Rightarrow> ('t, 'df) dataset \<Rightarrow> ('w, 'df) world
     \<Rightarrow> (error + 'df \<times> nat list option) \<times> ('w, 'df) world" where
  "make_encodings lib model quick datas w =
     (case encode_loop lib model quick (batches datas) ([], None) of
        Inl e \<Rightarrow> (Inl e, w)
      | Inr (encodings, latest) \<Rightarrow>
         (case data_frame lib encodings of
            Inl e \<Rightarrow> (Inl e, w)
          | Inr df \<Rightarrow>
             (case latest of
                None \<Rightarrow> (Inl (UnboundLocalError ''encoding''), w)
              | Some (encoding, initial_shape) \<Rightarrow>
                 (Inr (df, Some initial_shape),
                  w\<lparr>csvs := setitem ''data/encodings.csv'' df (csvs w)\<rparr>))))"

text \<open>
  The encodings and the local \<open>initial_shape\<close> of \<open>generate_embeddings\<close>: computed if
  \<open>reencode\<close> is set or the file does not exist, and read from the file otherwise, which
  leaves \<open>initial_shape\<close> unbound.
\<close>

definition get_encodings ::
  "('t, 'w, 'df) library \<Rightarrow> 'w net \<Rightarrow> bool \<Rightarrow> bool \<Rightarrow> ('t, 'df) dataset \<Rightarrow> ('w, 'df) world
     \<Rightarrow> (error + 'df \<times> nat list option) \<times> ('w, 'df) world" where
  "get_encodings lib model reencode quick datas w =
     (case map_of (csvs w) ''data/encodings.csv'' of
        None \<Rightarrow> make_encodings lib model quick datas w
      | Some df \<Rightarrow>
         if reencode then make_encodings lib model quick datas w
         else (Inr (df, None), w))"

text \<open>
  \<open>generate_embeddings\<close>, with the \<open>Options\<close> object that it creates as an argument. It
  returns the dataset and \<open>label_images\<close>, which is \<open>None\<close> or the dictionary of decoded
  centroids.
\<close>

definition generate_embeddings ::
  "('t, 'w, 'df) library \<Rightarrow> options \<Rightarrow> bool \<Rightarrow> bool \<Rightarrow> bool \<Rightarrow> ('w, 'df) world
     \<Rightarrow> (error + ('t, 'df) dataset \<times> (string \<times> 't) list option) \<times> ('w, 'df) world" where
  "generate_embeddings lib opt retrain reencode quick w =
     (case get_model lib opt retrain w of
        (Inl e, w1) \<Rightarrow> (Inl e, w1)
      | (Inr model, w1) \<Rightarrow>
         (case DataLoader lib (opt\<lparr>batch_size := 1\<rparr>) True of
            Inl e \<Rightarrow> (Inl e, w1)
          | Inr datas \<Rightarrow>
             (case get_encodings lib model reencode quick datas w1 of
                (Inl e, w2) \<Rightarrow> (Inl e, w2)
              | (Inr (encodings, initial_shape), w2) \<Rightarrow>
                 (let encodings_np = to_numpy lib encodings
                  in case locally_linear_embedding lib encodings_np (lll_neighbors opt) 3 of
                       Inl e \<Rightarrow> (Inl e, w2)
                     | Inr embeds \<Rightarrow>
                        (case k_means lib encodings_np (n_clusters opt) of
                           Inl e \<Rightarrow> (Inl e, w2)
                         | Inr (centroids, labels) \<Rightarrow>
                            (case (if reencode \<and> \<not> quick
                                   then (case initial_shape of
                                           None \<Rightarrow> (Inl (UnboundLocalError ''initial_shape''), w2)
                                         | Some s \<Rightarrow>
                                            (case decode_images lib centroids s model w2 of
                                               (Inl e, w3) \<Rightarrow> (Inl e, w3)
                                             | (Inr images, w3) \<Rightarrow> (Inr (Some images), w3)))
                                   else (Inr None, w2)) of
                               (Inl e, w3) \<Rightarrow> (Inl e, w3)
                             | (Inr label_images, w3) \<Rightarrow>
                                (case embeddings_frame lib encodings embeds labels of
                                   Inl e \<Rightarrow> (Inl e, w3)
                                 | Inr embeddings \<Rightarrow>
                                    (case join_new_col lib datas embeddings of
                                       Inl e \<Rightarrow> (Inl e, w3)
                                     | Inr datas' \<Rightarrow>
                                        (Inr (datas', label_images),
                                         w3\<lparr>csvs := setitem ''data/embeddings.csv'' (data datas')
                                                        (csvs w3)\<rparr>)))))))))"

subsection \<open>Stand-ins for running the pipeline\<close>

text \<open>
  A library of stand-ins, for running the control flow of the pipeline on concrete inputs:
  tensors and parameters are numbers, a table is a list of rows. The dataset that its
  loader returns has two files and the given mode.
\<close>

definition stub_library :: "string \<Rightarrow> (nat, nat, (string \<times> nat) list) library" where
  "stub_library md =
     \<lparr>DataLoader = (\<lambda>opt return_path.
        Inr \<lparr>mode = md, batches = [(0, ''a.png''), (1, ''b.png'')], data = []\<rparr>),
      init_params = (\<lambda>self. 0),
      load_state_dict = (\<lambda>self sd. Inr sd),
      train_step = (\<lambda>opt self sd batch. Inr (sd + 1)),
      to_device = (\<lambda>x. Inr x),
      forward_seq = (\<lambda>seq sd x. Inr x),
      tensor_sum = (\<lambda>dims x. Inr x),
      tensor_shape = (\<lambda>x. [1]),
      tensor_reshape = (\<lambda>shape x. Inr x),
      data_frame = (\<lambda>encodings. Inr encodings),
      to_numpy = (\<lambda>df. 0),
      locally_linear_embedding = (\<lambda>x n_neighbors n_components. Inr 0),
      k_means = (\<lambda>x n_clusters. Inr (replicate (nat n_clusters) 0, 0)),
      embeddings_frame = (\<lambda>encodings embeds labels. Inr encodings),
      join_new_col = (\<lambda>datas embeddings. Inr (datas\<lparr>data := embeddings\<rparr>))\<rparr>"

definition stub_options :: options where
  "stub_options =
     \<lparr>visual_aa = test_filter_channel_sizes,
      visual_aa_args = \<lparr>kw_name = None, kw_in_channels = None, kw_in_size = None,
                        kw_dropout = None, kw_dropout_val = None\<rparr>,
      epoch_num = 2, batch_size = 4, regularize = False, reg_norm = 2, reg_penalty = 0,
      lll_neighbors = 5, n_clusters = 2\<rparr>"

definition empty_world :: "(nat, (string \<times> nat) list) world" where
  "empty_world = \<lparr>ckpts = [], csvs = [], events = []\<rparr>"

text \<open>A world in which data/encodings.csv exists.\<close>

definition csv_world :: "(nat, (string \<times> nat) list) world" where
  "csv_world = \<lparr>ckpts = [], csvs = [(''data/encodings.csv'', [(''a.png'', 7)])], events = []\<rparr>"

section \<open>Closed forms used in the proofs\<close>

text \<open>
  The definitions of this section are not part of the program: they describe, without the
  state of its two iterations, what the constructor is proved to build.
\<close>

definition letters :: "string \<Rightarrow> bool" where
  "letters p \<longleftrightarrow> (\<forall>c \<in> set p. c \<notin> set ''0123456789'')"

definition conv_formula :: "int \<Rightarrow> filter_size \<Rightarrow> int" where
  "conv_formula s fs = ((s + 2 * fs_padding fs - (fs_kernel fs - 1) - 1) div fs_stride fs) + 1"

fun conv_sizes :: "int \<times> int \<Rightarrow> filter_size list \<Rightarrow> (int \<times> int) list" where
  "conv_sizes hw [] = []"
| "conv_sizes hw (fs # rest) =
     (conv_formula (fst hw) fs, conv_formula (snd hw) fs)
       # conv_sizes (conv_formula (fst hw) fs, conv_formula (snd hw) fs) rest"

definition enc_block :: "bool \<Rightarrow> real \<Rightarrow> nat \<Rightarrow> filter_size \<Rightarrow> sequential" where
  "enc_block dropout dropout_val i fs =
     [(''conv'' @ str (i + 1),
       Conv2d (fs_in_channels fs) (fs_out_channels fs) (fs_kernel fs) (fs_stride fs) (fs_padding fs))]
     @ (if dropout then [(''dropout'' @ str (i + 1), Dropout dropout_val)] else [])
     @ [(''relu'' @ str (i + 1), ReLU)]"

fun enc_blocks :: "bool \<Rightarrow> real \<Rightarrow> nat \<Rightarrow> filter_size list \<Rightarrow> sequential" where
  "enc_blocks dropout dropout_val i [] = []"
| "enc_blocks dropout dropout_val i (fs # rest) =
     enc_block dropout dropout_val i fs @ enc_blocks dropout dropout_val (Suc i) rest"

definition deconv_of :: "(int \<times> int) list \<Rightarrow> nat \<Rightarrow> filter_size \<Rightarrow> module" where
  "deconv_of sl i fs =
     ConvTranspose2d (fs_out_channels fs) (fs_in_channels fs) (fs_kernel fs) (fs_stride fs)
       (fs_padding fs)
       (deconv_estimate (fst (sl ! i)) (fs_kernel fs) (fs_stride fs) (fs_padding fs)
          \<noteq> fst (sl ! (i + 1)))"

definition dec_block :: "(int \<times> int) list \<Rightarrow> nat \<Rightarrow> filter_size \<Rightarrow> sequential" where
  "dec_block sl i fs =
     [(''deconv'' @ str (i + 1), deconv_of sl i fs), (''relu'' @ str (i + 1), ReLU)]"

definition conv_of :: "filter_size \<Rightarrow> module" where
  "conv_of fs =
     Conv2d (fs_in_channels fs) (fs_out_channels fs) (fs_kernel fs) (fs_stride fs) (fs_padding fs)"

fun is_deconv :: "module \<Rightarrow> bool" where
  "is_deconv (ConvTranspose2d ci co k s p op) = True"
| "is_deconv m = False"

fun is_dropout :: "module \<Rightarrow> bool" where
  "is_dropout (Dropout p) = True"
| "is_dropout m = False"

fun is_batchnorm :: "module \<Rightarrow> bool" where
  "is_batchnorm (BatchNorm2d c) = True"
| "is_batchnorm m = False"

fun dec_blocks :: "(int \<times> int) list \<Rightarrow> nat \<Rightarrow> filter_size list \<Rightarrow> sequential" where
  "dec_blocks sl i [] = []"
| "dec_blocks sl i (fs # rest) = dec_block sl i fs @ dec_blocks sl (Suc i) rest"

definition ok_keys :: "string set \<Rightarrow> nat \<Rightarrow> sequential \<Rightarrow> bool" where
  "ok_keys P i ps \<longleftrightarrow>
     (\<forall>k \<in> fst ` set ps. \<exists>p j. letters p \<and> k = p @ str j \<and> (p \<in> P \<longrightarrow> j \<le> i))"

definition enc_names :: "string set" where
  "enc_names = {''conv'', ''dropout'', ''relu''}"

definition dec_names :: "string set" where
  "dec_names = {''deconv'', ''relu''}"

section \<open>Properties of the constructor\<close>

subsection \<open>Module names are never reused\<close>

lemma digit_inj: "a < 10 \<Longrightarrow> b < 10 \<Longrightarrow> digit a = digit b \<Longrightarrow> a = b"
  unfolding digit_def
  by (subst (asm) nth_eq_iff_index_eq) simp_all

lemma digit_in: "a < 10 \<Longrightarrow> digit a \<in> set ''0123456789''"
  unfolding digit_def by (rule nth_mem) simp

lemma str_nonempty: "str n \<noteq> []"
  by (subst str.simps) simp

lemma str_digits: "set (str n) \<subseteq> set ''0123456789''"
proof (induction n rule: str.induct)
  case (1 n)
  show ?case
  proof (cases "n < 10")
    case True
    then show ?thesis using digit_in [of n] by (subst str.simps) simp
  next
    case False
    have "n mod 10 < 10" by simp
    then have "digit (n mod 10) \<in> set ''0123456789''" by (rule digit_in)
    with False 1 show ?thesis by (subst str.simps) simp
  qed
qed

lemma str_length_one: "length (str n) = 1 \<longleftrightarrow> n < 10"
proof (cases "n < 10")
  case True
  then show ?thesis by (subst str.simps) simp
next
  case False
  then have "str n = str (n div 10) @ [digit (n mod 10)]" by (subst str.simps) simp
  moreover have "length (str (n div 10)) \<noteq> 0" using str_nonempty by simp
  ultimately show ?thesis using False by simp
qed

lemma str_inj: "str a = str b \<Longrightarrow> a = b"
proof (induction a arbitrary: b rule: str.induct)
  case (1 n)
  show ?case
  proof (cases "n < 10")
    case True
    then have "length (str n) = 1" using str_length_one [of n] by blast
    with 1(2) have b: "b < 10" using str_length_one [of b] by simp
    from True b 1(2) have "digit n = digit b" by (simp add: str.simps)
    with True b show ?thesis by (rule digit_inj)
  next
    case False
    then have "length (str n) \<noteq> 1" using str_length_one [of n] by blast
    with 1(2) have b: "\<not> b < 10" using str_length_one [of b] by simp
    have sn: "str n = str (n div 10) @ [digit (n mod 10)]"
      using False by (subst str.simps) simp
    have sb: "str b = str (b div 10) @ [digit (b mod 10)]"
      using b by (subst str.simps) simp
    from 1(2) sn sb have e1: "str (n div 10) = str (b div 10)"
      and e2: "digit (n mod 10) = digit (b mod 10)" by simp_all
    from 1(1) [OF False e1] have d: "n div 10 = b div 10" .
    have "n mod 10 = b mod 10" using e2 by (intro digit_inj) simp_all
    with d show ?thesis by (metis div_mult_mod_eq)
  qed
qed

lemma takeWhile_name:
  assumes "letters p"
  shows "takeWhile (\<lambda>c. c \<notin> set ''0123456789'') (p @ str n) = p"
proof -
  obtain d ds where s: "str n = d # ds" using str_nonempty by (cases "str n") auto
  then have "d \<in> set ''0123456789''" using str_digits [of n] by auto
  with assms s show ?thesis unfolding letters_def
    by (simp add: takeWhile_append2)
qed

lemma name_inj:
  assumes "letters p" "letters q" "p @ str a = q @ str b"
  shows "p = q \<and> a = b"
proof -
  have "p = q" using takeWhile_name [OF assms(1), of a] takeWhile_name [OF assms(2), of b] assms(3)
    by simp
  with assms(3) show ?thesis using str_inj by simp
qed

lemma add_module_fresh:
  "nm \<notin> fst ` set ps \<Longrightarrow> add_module nm m ps = ps @ [(nm, m)]"
  by (induction ps) auto

lemma ok_keys_fresh:
  assumes "ok_keys P i ps" "letters q" "q \<in> P"
  shows "q @ str (Suc i) \<notin> fst ` set ps"
proof
  assume "q @ str (Suc i) \<in> fst ` set ps"
  with assms(1) obtain p j where pj: "letters p" "q @ str (Suc i) = p @ str j" "p \<in> P \<longrightarrow> j \<le> i"
    unfolding ok_keys_def by blast
  from name_inj [OF assms(2) pj(1) pj(2)] have "q = p" "Suc i = j" by simp_all
  with pj(3) assms(3) show False by simp
qed

lemma ok_keys_mono: "ok_keys P i ps \<Longrightarrow> ok_keys P (Suc i) ps"
  unfolding ok_keys_def by (meson le_Suc_eq)

lemma ok_keys_append:
  "ok_keys P i ps \<Longrightarrow> ok_keys P i qs \<Longrightarrow> ok_keys P i (ps @ qs)"
  unfolding ok_keys_def by auto

lemma letters_names [simp]:
  "letters ''conv''" "letters ''dropout''" "letters ''relu''" "letters ''deconv''"
  "letters ''batchnorm''"
  unfolding letters_def by simp_all

lemma str_one: "str 1 = ''1''" "str (Suc 0) = ''1''"
  by (simp_all add: str.simps digit_def)

lemma name_neq:
  assumes "letters p" "letters q" "p \<noteq> q"
  shows "p @ str a \<noteq> q @ str b"
  using name_inj [OF assms(1,2)] assms(3) by blast

lemma enc_layer_step:
  assumes st: "fs_stride fs \<noteq> 0"
    and ok: "ok_keys enc_names i enc"
    and cur: "if i = 0 then cur = insz else hw = Some cur"
  shows "enc_layer insz dropout dv i fs (enc, sl, hw) =
           Inr (enc @ enc_block dropout dv i fs,
                sl @ [(conv_formula (fst cur) fs, conv_formula (snd cur) fs)],
                Some (conv_formula (fst cur) fs, conv_formula (snd cur) fs))"
proof -
  obtain a b k s p where fs: "fs = (a, b, k, s, p)" by (cases fs)
  from st fs have s0: "s \<noteq> 0" by (simp add: fs_stride_def)
  have c: "''conv'' @ str (Suc i) \<notin> fst ` set enc"
    by (rule ok_keys_fresh [OF ok]) (simp_all add: enc_names_def)
  have d: "''dropout'' @ str (Suc i) \<notin> fst ` set enc"
    by (rule ok_keys_fresh [OF ok]) (simp_all add: enc_names_def)
  have r: "''relu'' @ str (Suc i) \<notin> fst ` set enc"
    by (rule ok_keys_fresh [OF ok]) (simp_all add: enc_names_def)
  have dc: "''dropout'' @ str (Suc i) \<noteq> ''conv'' @ str (Suc i)"
    by (rule name_neq) simp_all
  have rc: "''relu'' @ str (Suc i) \<noteq> ''conv'' @ str (Suc i)"
    by (rule name_neq) simp_all
  have rd: "''relu'' @ str (Suc i) \<noteq> ''dropout'' @ str (Suc i)"
    by (rule name_neq) simp_all
  let ?C = "(''conv'' @ str (Suc i), Conv2d a b k s p)"
  let ?D = "(''dropout'' @ str (Suc i), Dropout dv)"
  let ?R = "(''relu'' @ str (Suc i), ReLU)"
  have e1: "add_module (''conv'' @ str (Suc i)) (Conv2d a b k s p) enc = enc @ [?C]"
    using c by (rule add_module_fresh)
  have e2: "add_module (''dropout'' @ str (Suc i)) (Dropout dv) (enc @ [?C]) = enc @ [?C] @ [?D]"
    using add_module_fresh [of "''dropout'' @ str (Suc i)" "enc @ [?C]" "Dropout dv"] d dc
    by simp
  have e3: "add_module (''relu'' @ str (Suc i)) ReLU (enc @ [?C] @ [?D]) = enc @ [?C] @ [?D] @ [?R]"
    using add_module_fresh [of "''relu'' @ str (Suc i)" "enc @ [?C] @ [?D]" ReLU] r rc rd
    by simp
  have e4: "add_module (''relu'' @ str (Suc i)) ReLU (enc @ [?C]) = enc @ [?C] @ [?R]"
    using add_module_fresh [of "''relu'' @ str (Suc i)" "enc @ [?C]" ReLU] r rc
    by simp
  have src: "(if i = 0 then Inr insz
              else (case hw of None \<Rightarrow> Inl (UnboundLocalError ''h_out'') | Some x \<Rightarrow> Inr x))
             = (Inr cur :: error + int \<times> int)"
    using cur by (cases "i = 0") simp_all
  obtain h w where hw: "cur = (h, w)" by (cases cur)
  show ?thesis
    unfolding fs enc_layer.simps src hw
    using s0 e1 e2 e3 e4
    by (simp add: conv_out_def conv_formula_def enc_block_def fs_stride_def fs_kernel_def
        fs_padding_def fs_in_channels_def fs_out_channels_def Let_def)
qed

lemma ok_keys_single:
  assumes "letters q"
  shows "ok_keys P j [(q @ str j, m)]"
  unfolding ok_keys_def using assms
  by (auto intro!: exI [of _ q] exI [of _ j])

lemma ok_keys_enc_block:
  assumes "ok_keys enc_names i enc"
  shows "ok_keys enc_names (Suc i) (enc @ enc_block dropout dv i fs)"
proof -
  have 1: "ok_keys enc_names (Suc i) enc" using assms by (rule ok_keys_mono)
  have c: "ok_keys enc_names (Suc i) [(''conv'' @ str (Suc i),
      Conv2d (fs_in_channels fs) (fs_out_channels fs) (fs_kernel fs) (fs_stride fs) (fs_padding fs))]"
    by (rule ok_keys_single) simp
  have d: "ok_keys enc_names (Suc i) [(''dropout'' @ str (Suc i), Dropout dv)]"
    by (rule ok_keys_single) simp
  have r: "ok_keys enc_names (Suc i) [(''relu'' @ str (Suc i), ReLU)]"
    by (rule ok_keys_single) simp
  have e: "ok_keys enc_names (Suc i) []" by (simp add: ok_keys_def)
  have 2: "ok_keys enc_names (Suc i) (enc_block dropout dv i fs)"
    unfolding enc_block_def using c d r e
    by (cases dropout) (auto intro!: ok_keys_append simp del: append.simps)
  from 1 2 show ?thesis by (rule ok_keys_append)
qed

lemma enc_loop_char:
  assumes "\<forall>fs \<in> set specs. fs_stride fs \<noteq> 0"
    and "ok_keys enc_names i enc"
    and "if i = 0 then cur = insz else hw = Some cur"
  shows "\<exists>hw'. enc_loop insz dropout dv i specs (enc, sl, hw) =
           Inr (enc @ enc_blocks dropout dv i specs, sl @ conv_sizes cur specs, hw')"
  using assms
proof (induction specs arbitrary: i enc sl hw cur)
  case Nil
  then show ?case by simp
next
  case (Cons fs rest)
  let ?nxt = "(conv_formula (fst cur) fs, conv_formula (snd cur) fs)"
  have st: "fs_stride fs \<noteq> 0" using Cons.prems(1) by simp
  have step: "enc_layer insz dropout dv i fs (enc, sl, hw) =
     Inr (enc @ enc_block dropout dv i fs, sl @ [?nxt], Some ?nxt)"
    using st Cons.prems(2,3) by (rule enc_layer_step)
  have "\<exists>hw'. enc_loop insz dropout dv (Suc i) rest
           (enc @ enc_block dropout dv i fs, sl @ [?nxt], Some ?nxt) =
         Inr ((enc @ enc_block dropout dv i fs) @ enc_blocks dropout dv (Suc i) rest,
              (sl @ [?nxt]) @ conv_sizes ?nxt rest, hw')"
  proof (rule Cons.IH)
    show "\<forall>fs \<in> set rest. fs_stride fs \<noteq> 0" using Cons.prems(1) by simp
    show "ok_keys enc_names (Suc i) (enc @ enc_block dropout dv i fs)"
      using Cons.prems(2) by (rule ok_keys_enc_block)
    show "if Suc i = 0 then ?nxt = insz else Some ?nxt = Some ?nxt" by simp
  qed
  then show ?case using step by simp
qed

lemma dec_layer_step:
  assumes ok: "ok_keys dec_names i dec"
    and len: "Suc i < length sl"
  shows "dec_layer sl i fs dec = Inr (dec @ dec_block sl i fs)"
proof -
  obtain a b k s p where fs: "fs = (a, b, k, s, p)" by (cases fs)
  have d: "''deconv'' @ str (Suc i) \<notin> fst ` set dec"
    by (rule ok_keys_fresh [OF ok]) (simp_all add: dec_names_def)
  have r: "''relu'' @ str (Suc i) \<notin> fst ` set dec"
    by (rule ok_keys_fresh [OF ok]) (simp_all add: dec_names_def)
  have rd: "''relu'' @ str (Suc i) \<noteq> ''deconv'' @ str (Suc i)"
    by (rule name_neq) simp_all
  have e1: "add_module (''deconv'' @ str (Suc i)) m dec = dec @ [(''deconv'' @ str (Suc i), m)]" for m
    using d by (rule add_module_fresh)
  have e2: "add_module (''relu'' @ str (Suc i)) ReLU (dec @ [(''deconv'' @ str (Suc i), m)])
      = dec @ [(''deconv'' @ str (Suc i), m), (''relu'' @ str (Suc i), ReLU)]" for m
    using add_module_fresh [of "''relu'' @ str (Suc i)" "dec @ [(''deconv'' @ str (Suc i), m)]" ReLU]
      r rd by simp
  show ?thesis
    unfolding fs dec_layer.simps
    using len e1 e2
    by (simp add: getitem_def dec_block_def deconv_of_def fs_stride_def fs_kernel_def
        fs_padding_def fs_in_channels_def fs_out_channels_def Let_def)
qed

lemma ok_keys_dec_block:
  assumes "ok_keys dec_names i dec"
  shows "ok_keys dec_names (Suc i) (dec @ dec_block sl i fs)"
proof -
  have 1: "ok_keys dec_names (Suc i) dec" using assms by (rule ok_keys_mono)
  have d: "ok_keys dec_names (Suc i) [(''deconv'' @ str (Suc i), m)]" for m
    by (rule ok_keys_single) simp
  have r: "ok_keys dec_names (Suc i) [(''relu'' @ str (Suc i), ReLU)]"
    by (rule ok_keys_single) simp
  have "ok_keys dec_names (Suc i) ([(''deconv'' @ str (Suc i), m)] @ [(''relu'' @ str (Suc i), ReLU)])" for m
    using d r by (rule ok_keys_append)
  then have 2: "ok_keys dec_names (Suc i) (dec_block sl i fs)"
    unfolding dec_block_def by simp
  from 1 2 show ?thesis by (rule ok_keys_append)
qed

lemma dec_loop_char:
  assumes "ok_keys dec_names i dec"
    and "i + length specs < length sl"
  shows "dec_loop sl i specs dec = Inr (dec @ dec_blocks sl i specs)"
  using assms
proof (induction specs arbitrary: i dec)
  case Nil
  then show ?case by simp
next
  case (Cons fs rest)
  have step: "dec_layer sl i fs dec = Inr (dec @ dec_block sl i fs)"
    using Cons.prems by (intro dec_layer_step) simp_all
  have "dec_loop sl (Suc i) rest (dec @ dec_block sl i fs)
      = Inr ((dec @ dec_block sl i fs) @ dec_blocks sl (Suc i) rest)"
  proof (rule Cons.IH)
    show "ok_keys dec_names (Suc i) (dec @ dec_block sl i fs)"
      using Cons.prems(1) by (rule ok_keys_dec_block)
    show "Suc i + length rest < length sl" using Cons.prems(2) by simp
  qed
  then show ?case using step by simp
qed

lemma length_conv_sizes [simp]: "length (conv_sizes hw specs) = length specs"
  by (induction specs arbitrary: hw) simp_all

lemma build_encoder_char:
  assumes "\<forall>fs \<in> set specs. fs_stride fs \<noteq> 0"
  shows "\<exists>hw'. build_encoder specs c insz dropout dv =
           Inr ((''batchnorm1'', BatchNorm2d c) # enc_blocks dropout dv 0 specs,
                insz # conv_sizes insz specs, hw')"
proof -
  have ok: "ok_keys enc_names 0 [(''batchnorm1'', BatchNorm2d c)]"
    unfolding ok_keys_def
    by (auto intro!: exI [of _ "''batchnorm''"] exI [of _ "1::nat"] simp: str_one enc_names_def)
  have "\<exists>hw'. enc_loop insz dropout dv 0 specs ([(''batchnorm1'', BatchNorm2d c)], [insz], None) =
      Inr ([(''batchnorm1'', BatchNorm2d c)] @ enc_blocks dropout dv 0 specs,
           [insz] @ conv_sizes insz specs, hw')"
    using assms ok by (rule enc_loop_char) simp
  then show ?thesis unfolding build_encoder_def by simp
qed

lemma VisAutoEncoder_char:
  assumes "\<forall>fs \<in> set specs. fs_stride fs \<noteq> 0"
  shows "VisAutoEncoder specs nm c insz dropout dv =
           Inr \<lparr>in_size = insz, name = nm,
                encoder = (''batchnorm1'', BatchNorm2d c) # enc_blocks dropout dv 0 specs,
                decoder = dec_blocks (rev (insz # conv_sizes insz specs)) 0 (rev specs)\<rparr>"
proof -
  obtain hw' where b: "build_encoder specs c insz dropout dv =
           Inr ((''batchnorm1'', BatchNorm2d c) # enc_blocks dropout dv 0 specs,
                insz # conv_sizes insz specs, hw')"
    using build_encoder_char [OF assms] by blast
  have "dec_loop (rev (insz # conv_sizes insz specs)) 0 (rev specs) []
      = Inr ([] @ dec_blocks (rev (insz # conv_sizes insz specs)) 0 (rev specs))"
    by (rule dec_loop_char) (simp_all add: ok_keys_def)
  then show ?thesis unfolding VisAutoEncoder_def b by simp
qed

lemma enc_layer_zero:
  assumes st: "fs_stride fs = 0"
    and cur: "if i = 0 then cur = insz else hw = Some cur"
  shows "enc_layer insz dropout dv i fs (enc, sl, hw) = Inl ZeroDivisionError"
proof -
  obtain a b k s p where fs: "fs = (a, b, k, s, p)" by (cases fs)
  from st fs have s0: "s = 0" by (simp add: fs_stride_def)
  have src: "(if i = 0 then Inr insz
              else (case hw of None \<Rightarrow> Inl (UnboundLocalError ''h_out'') | Some x \<Rightarrow> Inr x))
             = (Inr cur :: error + int \<times> int)"
    using cur by (cases "i = 0") simp_all
  obtain h w where hw: "cur = (h, w)" by (cases cur)
  show ?thesis
    unfolding fs enc_layer.simps src hw using s0 by (simp add: conv_out_def Let_def)
qed

lemma enc_loop_zero:
  assumes "\<exists>fs \<in> set specs. fs_stride fs = 0"
    and "ok_keys enc_names i enc"
    and "if i = 0 then cur = insz else hw = Some cur"
  shows "enc_loop insz dropout dv i specs (enc, sl, hw) = Inl ZeroDivisionError"
  using assms
proof (induction specs arbitrary: i enc sl hw cur)
  case Nil
  then show ?case by simp
next
  case (Cons fs rest)
  show ?case
  proof (cases "fs_stride fs = 0")
    case True
    then show ?thesis using Cons.prems(3) by (simp add: enc_layer_zero)
  next
    case False
    let ?nxt = "(conv_formula (fst cur) fs, conv_formula (snd cur) fs)"
    have step: "enc_layer insz dropout dv i fs (enc, sl, hw) =
       Inr (enc @ enc_block dropout dv i fs, sl @ [?nxt], Some ?nxt)"
      using False Cons.prems(2,3) by (rule enc_layer_step)
    have "enc_loop insz dropout dv (Suc i) rest
           (enc @ enc_block dropout dv i fs, sl @ [?nxt], Some ?nxt) = Inl ZeroDivisionError"
    proof (rule Cons.IH)
      show "\<exists>fs \<in> set rest. fs_stride fs = 0" using Cons.prems(1) False by auto
      show "ok_keys enc_names (Suc i) (enc @ enc_block dropout dv i fs)"
        using Cons.prems(2) by (rule ok_keys_enc_block)
      show "if Suc i = 0 then ?nxt = insz else Some ?nxt = Some ?nxt" by simp
    qed
    then show ?thesis using step by simp
  qed
qed

lemma VisAutoEncoder_zero_stride:
  assumes "\<exists>fs \<in> set specs. fs_stride fs = 0"
  shows "VisAutoEncoder specs nm c insz dropout dv = Inl ZeroDivisionError"
proof -
  have ok: "ok_keys enc_names 0 [(''batchnorm1'', BatchNorm2d c)]"
    unfolding ok_keys_def
    by (auto intro!: exI [of _ "''batchnorm''"] exI [of _ "1::nat"] simp: str_one enc_names_def)
  have "enc_loop insz dropout dv 0 specs ([(''batchnorm1'', BatchNorm2d c)], [insz], None)
      = Inl ZeroDivisionError"
    using assms ok by (rule enc_loop_zero) simp
  then show ?thesis unfolding VisAutoEncoder_def build_encoder_def by simp
qed

lemma conv_sizes_nth:
  "i < length specs \<Longrightarrow>
   (hw # conv_sizes hw specs) ! Suc i =
     (conv_formula (fst ((hw # conv_sizes hw specs) ! i)) (specs ! i),
      conv_formula (snd ((hw # conv_sizes hw specs) ! i)) (specs ! i))"
proof (induction specs arbitrary: i hw)
  case Nil
  then show ?case by simp
next
  case (Cons fs rest)
  show ?case
  proof (cases i)
    case 0
    then show ?thesis by simp
  next
    case (Suc j)
    with Cons.prems have "j < length rest" by simp
    from Cons.IH [OF this, of "(conv_formula (fst hw) fs, conv_formula (snd hw) fs)"]
    show ?thesis using Suc by simp
  qed
qed

lemma deconvs_dec_blocks:
  "filter is_deconv (map snd (dec_blocks sl i specs)) =
     map (\<lambda>(j, fs). deconv_of sl j fs) (enumerate i specs)"
  by (induction specs arbitrary: i) (simp_all add: dec_block_def deconv_of_def)

lemma length_dec_blocks: "length (dec_blocks sl i specs) = 2 * length specs"
  by (induction specs arbitrary: i) (simp_all add: dec_block_def)

lemma dec_blocks_nth:
  "j < length specs \<Longrightarrow>
     dec_blocks sl i specs ! (2 * j) = (''deconv'' @ str (i + j + 1), deconv_of sl (i + j) (specs ! j)) \<and>
     dec_blocks sl i specs ! (2 * j + 1) = (''relu'' @ str (i + j + 1), ReLU)"
proof (induction specs arbitrary: i j)
  case Nil
  then show ?case by simp
next
  case (Cons fs rest)
  show ?case
  proof (cases j)
    case 0
    then show ?thesis by (simp add: dec_block_def)
  next
    case (Suc k)
    with Cons.prems have "k < length rest" by simp
    from Cons.IH [OF this, of "Suc i"] show ?thesis using Suc
      by (simp add: dec_block_def)
  qed
qed

lemma modules_enc_blocks:
  "map snd (enc_blocks dropout dv i specs) =
     concat (map (\<lambda>fs. conv_of fs # (if dropout then [Dropout dv] else []) @ [ReLU]) specs)"
  by (induction specs arbitrary: i) (simp_all add: enc_block_def conv_of_def)

lemma dec_blocks_modules:
  "x \<in> set (map snd (dec_blocks sl i specs)) \<Longrightarrow> is_deconv x \<or> x = ReLU"
  by (induction specs arbitrary: i) (auto simp: dec_block_def deconv_of_def)

lemma dec_blocks_heights:
  assumes "map fst sl = map fst sl'" "i + length specs < length sl"
  shows "dec_blocks sl i specs = dec_blocks sl' i specs"
  using assms(2)
proof (induction specs arbitrary: i)
  case Nil
  then show ?case by simp
next
  case (Cons fs rest)
  have len: "length sl = length sl'" using assms(1) by (metis length_map)
  have nth: "fst (sl ! j) = fst (sl' ! j)" if "j < length sl" for j
    using that assms(1) len by (metis nth_map)
  have "deconv_of sl i fs = deconv_of sl' i fs"
    unfolding deconv_of_def using nth [of i] nth [of "i + 1"] Cons.prems by simp
  moreover have "dec_blocks sl (Suc i) rest = dec_blocks sl' (Suc i) rest"
    using Cons.prems by (intro Cons.IH) simp
  ultimately show ?case by (simp add: dec_block_def)
qed

lemma conv_sizes_heights:
  "map fst (conv_sizes (H, W) specs) = map fst (conv_sizes (H, W') specs)"
proof (induction specs arbitrary: H W W')
  case Nil
  then show ?case by simp
next
  case (Cons fs rest)
  show ?case using Cons.IH [of "conv_formula H fs" "conv_formula W fs" "conv_formula W' fs"]
    by simp
qed

section \<open>The claims about the constructor\<close>

text \<open>
  Claim C2. For \<open>n\<close> layer specifications (none with stride 0, for which \<open>//\<close> raises) the
  first loop of the constructor ends with a size list of \<open>n + 1\<close> entries: the first is the
  input size, and entry \<open>i + 1\<close> is the \<open>Conv2d\<close> size formula of layer \<open>i\<close> applied to the
  height and to the width of entry \<open>i\<close>.
\<close>

theorem size_list_recorded:
  assumes "\<forall>fs \<in> set specs. fs_stride fs \<noteq> 0"
  shows "\<exists>enc sl hw. build_encoder specs c (H, W) dropout dv = Inr (enc, sl, hw)
           \<and> length sl = length specs + 1
           \<and> sl ! 0 = (H, W)
           \<and> (\<forall>i < length specs. sl ! (i + 1) =
                 (((fst (sl ! i) + 2 * fs_padding (specs ! i) - (fs_kernel (specs ! i) - 1) - 1)
                     div fs_stride (specs ! i)) + 1,
                  ((snd (sl ! i) + 2 * fs_padding (specs ! i) - (fs_kernel (specs ! i) - 1) - 1)
                     div fs_stride (specs ! i)) + 1))"
proof -
  let ?sl = "(H, W) # conv_sizes (H, W) specs"
  obtain hw where b: "build_encoder specs c (H, W) dropout dv =
      Inr ((''batchnorm1'', BatchNorm2d c) # enc_blocks dropout dv 0 specs, ?sl, hw)"
    using build_encoder_char [OF assms] by blast
  have 1: "length ?sl = length specs + 1" by simp
  have 2: "?sl ! 0 = (H, W)" by simp
  have 3: "\<forall>i < length specs. ?sl ! (i + 1) =
                 (((fst (?sl ! i) + 2 * fs_padding (specs ! i) - (fs_kernel (specs ! i) - 1) - 1)
                     div fs_stride (specs ! i)) + 1,
                  ((snd (?sl ! i) + 2 * fs_padding (specs ! i) - (fs_kernel (specs ! i) - 1) - 1)
                     div fs_stride (specs ! i)) + 1)"
    using conv_sizes_nth [of _ specs "(H, W)"] by (simp add: conv_formula_def)
  from b 1 2 3 show ?thesis by blast
qed

text \<open>Claim C2 at the layers of \<open>test_autoencoder\<close> and the default input size.\<close>

theorem size_list_recorded_witness:
  "map fs_stride test_filter_channel_sizes = [1, 2, 2]
   \<and> (\<exists>enc sl hw. build_encoder test_filter_channel_sizes 3 (256, 256) True 0.2 = Inr (enc, sl, hw)
         \<and> length sl = 4 \<and> sl ! 0 = (256, 256) \<and> sl ! 1 = (258, 258)
         \<and> sl ! 2 = (130, 130) \<and> sl ! 3 = (66, 66))"
proof -
  have h: "\<forall>fs \<in> set test_filter_channel_sizes. fs_stride fs \<noteq> 0"
    by (simp add: test_filter_channel_sizes_def fs_stride_def)
  from size_list_recorded [OF h, of 3 256 256 True "0.2"]
  obtain enc sl hw where b: "build_encoder test_filter_channel_sizes 3 (256, 256) True 0.2 = Inr (enc, sl, hw)"
    and len: "length sl = length test_filter_channel_sizes + 1"
    and z: "sl ! 0 = (256, 256)"
    and step: "\<And>i. i < length test_filter_channel_sizes \<Longrightarrow> sl ! (i + 1) =
                 (((fst (sl ! i) + 2 * fs_padding (test_filter_channel_sizes ! i)
                      - (fs_kernel (test_filter_channel_sizes ! i) - 1) - 1)
                     div fs_stride (test_filter_channel_sizes ! i)) + 1,
                  ((snd (sl ! i) + 2 * fs_padding (test_filter_channel_sizes ! i)
                      - (fs_kernel (test_filter_channel_sizes ! i) - 1) - 1)
                     div fs_stride (test_filter_channel_sizes ! i)) + 1)"
    by blast
  have s1: "sl ! 1 = (258, 258)"
    using step [of 0] z
    by (simp add: test_filter_channel_sizes_def fs_stride_def fs_kernel_def fs_padding_def)
  have s2: "sl ! 2 = (130, 130)"
    using step [of 1] s1
    by (simp add: test_filter_channel_sizes_def fs_stride_def fs_kernel_def fs_padding_def
        numeral_2_eq_2)
  have s3: "sl ! 3 = (66, 66)"
    using step [of 2] s2
    by (simp add: test_filter_channel_sizes_def fs_stride_def fs_kernel_def fs_padding_def)
  have l4: "length sl = 4" using len by (simp add: test_filter_channel_sizes_def)
  have st: "map fs_stride test_filter_channel_sizes = [1, 2, 2]"
    by (simp add: test_filter_channel_sizes_def fs_stride_def)
  from st b l4 z s1 s2 s3 show ?thesis by blast
qed

text \<open>
  Claim C3. For \<open>n\<close> layer specifications the decoder holds exactly \<open>n\<close> transposed
  convolutions, and the one at position \<open>i\<close> (from 0) has the kernel size, stride and padding
  of specification \<open>n - 1 - i\<close>, with that specification's output channels as its input
  channels and its input channels as its output channels.
\<close>

theorem decoder_symmetric:
  assumes "\<forall>fs \<in> set specs. fs_stride fs \<noteq> 0"
  shows "\<exists>m. VisAutoEncoder specs nm c insz dropout dv = Inr m
           \<and> length (filter is_deconv (map snd (decoder m))) = length specs
           \<and> (\<forall>i < length specs. \<exists>output_padding.
                 filter is_deconv (map snd (decoder m)) ! i =
                   ConvTranspose2d (fs_out_channels (specs ! (length specs - 1 - i)))
                     (fs_in_channels (specs ! (length specs - 1 - i)))
                     (fs_kernel (specs ! (length specs - 1 - i)))
                     (fs_stride (specs ! (length specs - 1 - i)))
                     (fs_padding (specs ! (length specs - 1 - i)))
                     output_padding)"
proof -
  let ?sl = "rev (insz # conv_sizes insz specs)"
  let ?dec = "dec_blocks ?sl 0 (rev specs)"
  have m: "VisAutoEncoder specs nm c insz dropout dv =
      Inr \<lparr>in_size = insz, name = nm,
           encoder = (''batchnorm1'', BatchNorm2d c) # enc_blocks dropout dv 0 specs,
           decoder = ?dec\<rparr>"
    using assms by (rule VisAutoEncoder_char)
  have f: "filter is_deconv (map snd ?dec) = map (\<lambda>(j, fs). deconv_of ?sl j fs) (enumerate 0 (rev specs))"
    by (rule deconvs_dec_blocks)
  have 1: "length (filter is_deconv (map snd ?dec)) = length specs"
    unfolding f by simp
  have 2: "\<exists>output_padding. filter is_deconv (map snd ?dec) ! i =
                   ConvTranspose2d (fs_out_channels (specs ! (length specs - 1 - i)))
                     (fs_in_channels (specs ! (length specs - 1 - i)))
                     (fs_kernel (specs ! (length specs - 1 - i)))
                     (fs_stride (specs ! (length specs - 1 - i)))
                     (fs_padding (specs ! (length specs - 1 - i)))
                     output_padding" if "i < length specs" for i
  proof -
    have "rev specs ! i = specs ! (length specs - 1 - i)"
      using that by (simp add: rev_nth)
    then show ?thesis unfolding f using that
      by (simp add: nth_enumerate_eq deconv_of_def)
  qed
  from m 1 2 show ?thesis by simp
qed

text \<open>Claim C3 at the layers of \<open>test_autoencoder\<close>.\<close>

theorem decoder_symmetric_witness:
  "map fs_stride test_filter_channel_sizes = [1, 2, 2]
   \<and> (\<exists>m. VisAutoEncoder test_filter_channel_sizes ''default_model'' 3 (256, 256) True 0.2 = Inr m
         \<and> length (filter is_deconv (map snd (decoder m))) = 3
         \<and> (\<exists>p. filter is_deconv (map snd (decoder m)) ! 0 = ConvTranspose2d 512 256 3 2 2 p)
         \<and> (\<exists>p. filter is_deconv (map snd (decoder m)) ! 1 = ConvTranspose2d 256 128 3 2 2 p)
         \<and> (\<exists>p. filter is_deconv (map snd (decoder m)) ! 2 = ConvTranspose2d 128 3 7 1 4 p))"
proof -
  have h: "\<forall>fs \<in> set test_filter_channel_sizes. fs_stride fs \<noteq> 0"
    by (simp add: test_filter_channel_sizes_def fs_stride_def)
  from decoder_symmetric [OF h, of "''default_model''" 3 "(256, 256)" True "0.2"]
  obtain m where m: "VisAutoEncoder test_filter_channel_sizes ''default_model'' 3 (256, 256) True 0.2 = Inr m"
    and len: "length (filter is_deconv (map snd (decoder m))) = length test_filter_channel_sizes"
    and layer: "\<And>i. i < length test_filter_channel_sizes \<Longrightarrow> \<exists>output_padding.
                 filter is_deconv (map snd (decoder m)) ! i =
                   ConvTranspose2d
                     (fs_out_channels (test_filter_channel_sizes ! (length test_filter_channel_sizes - 1 - i)))
                     (fs_in_channels (test_filter_channel_sizes ! (length test_filter_channel_sizes - 1 - i)))
                     (fs_kernel (test_filter_channel_sizes ! (length test_filter_channel_sizes - 1 - i)))
                     (fs_stride (test_filter_channel_sizes ! (length test_filter_channel_sizes - 1 - i)))
                     (fs_padding (test_filter_channel_sizes ! (length test_filter_channel_sizes - 1 - i)))
                     output_padding"
    by blast
  have l3: "length (filter is_deconv (map snd (decoder m))) = 3"
    using len by (simp add: test_filter_channel_sizes_def)
  have d0: "\<exists>p. filter is_deconv (map snd (decoder m)) ! 0 = ConvTranspose2d 512 256 3 2 2 p"
    using layer [of 0]
    by (simp add: test_filter_channel_sizes_def fs_stride_def fs_kernel_def fs_padding_def
        fs_in_channels_def fs_out_channels_def)
  have d1: "\<exists>p. filter is_deconv (map snd (decoder m)) ! 1 = ConvTranspose2d 256 128 3 2 2 p"
    using layer [of 1]
    by (simp add: test_filter_channel_sizes_def fs_stride_def fs_kernel_def fs_padding_def
        fs_in_channels_def fs_out_channels_def)
  have d2: "\<exists>p. filter is_deconv (map snd (decoder m)) ! 2 = ConvTranspose2d 128 3 7 1 4 p"
    using layer [of 2]
    by (simp add: test_filter_channel_sizes_def fs_stride_def fs_kernel_def fs_padding_def
        fs_in_channels_def fs_out_channels_def)
  have st: "map fs_stride test_filter_channel_sizes = [1, 2, 2]"
    by (simp add: test_filter_channel_sizes_def fs_stride_def)
  from st m l3 d0 d1 d2 show ?thesis by blast
qed

text \<open>
  Claim C8. The output padding of decoder layer \<open>i\<close> is 0 or 1; it is 1 exactly when the
  estimated height \<open>(size_list[i][0] - 1) * stride - 2 * padding + kernel\<close> differs from the
  recorded height \<open>size_list[i + 1][0]\<close> of the reversed size list; the layer keeps that one
  value for both spatial dimensions; and the decoder does not depend on the input width, so
  the width estimate plays no part.
\<close>

theorem output_padding_from_height:
  assumes "\<forall>fs \<in> set specs. fs_stride fs \<noteq> 0"
  shows "\<exists>enc sl hw m.
           build_encoder specs c (H, W) dropout dv = Inr (enc, sl, hw)
           \<and> VisAutoEncoder specs nm c (H, W) dropout dv = Inr m
           \<and> (\<forall>i < length specs. \<exists>ci co k s p output_padding.
                 filter is_deconv (map snd (decoder m)) ! i =
                   ConvTranspose2d ci co k s p output_padding
                 \<and> (of_bool output_padding :: int) \<in> {0, 1}
                 \<and> ((of_bool output_padding :: int) = 1 \<longleftrightarrow>
                      (fst (rev sl ! i) - 1) * s - 2 * p + k \<noteq> fst (rev sl ! (i + 1)))
                 \<and> output_padding_pair (ConvTranspose2d ci co k s p output_padding) =
                      Some (output_padding, output_padding))
           \<and> (\<forall>W'. \<exists>m'. VisAutoEncoder specs nm c (H, W') dropout dv = Inr m'
                 \<and> decoder m' = decoder m)"
proof -
  let ?sl = "(H, W) # conv_sizes (H, W) specs"
  let ?dec = "dec_blocks (rev ?sl) 0 (rev specs)"
  let ?m = "\<lparr>in_size = (H, W), name = nm,
           encoder = (''batchnorm1'', BatchNorm2d c) # enc_blocks dropout dv 0 specs,
           decoder = ?dec\<rparr>"
  obtain hw where b: "build_encoder specs c (H, W) dropout dv =
      Inr ((''batchnorm1'', BatchNorm2d c) # enc_blocks dropout dv 0 specs, ?sl, hw)"
    using build_encoder_char [OF assms] by blast
  have m: "VisAutoEncoder specs nm c (H, W) dropout dv = Inr ?m"
    using assms by (rule VisAutoEncoder_char)
  have f: "filter is_deconv (map snd ?dec) =
      map (\<lambda>(j, fs). deconv_of (rev ?sl) j fs) (enumerate 0 (rev specs))"
    by (rule deconvs_dec_blocks)
  have layer: "\<exists>ci co k s p output_padding.
                 filter is_deconv (map snd (decoder ?m)) ! i =
                   ConvTranspose2d ci co k s p output_padding
                 \<and> (of_bool output_padding :: int) \<in> {0, 1}
                 \<and> ((of_bool output_padding :: int) = 1 \<longleftrightarrow>
                      (fst (rev ?sl ! i) - 1) * s - 2 * p + k \<noteq> fst (rev ?sl ! (i + 1)))
                 \<and> output_padding_pair (ConvTranspose2d ci co k s p output_padding) =
                      Some (output_padding, output_padding)"
    if "i < length specs" for i
  proof -
    let ?fs = "rev specs ! i"
    let ?op = "deconv_estimate (fst (rev ?sl ! i)) (fs_kernel ?fs) (fs_stride ?fs) (fs_padding ?fs)
          \<noteq> fst (rev ?sl ! (i + 1))"
    have e: "filter is_deconv (map snd (decoder ?m)) ! i =
        ConvTranspose2d (fs_out_channels ?fs) (fs_in_channels ?fs) (fs_kernel ?fs) (fs_stride ?fs)
          (fs_padding ?fs) ?op"
    proof -
      have "filter is_deconv (map snd ?dec) ! i = deconv_of (rev ?sl) i ?fs"
        unfolding f using that by (simp add: nth_enumerate_eq del: rev.simps)
      then show ?thesis unfolding deconv_of_def by (simp del: rev.simps)
    qed
    have o: "((of_bool ?op :: int) = 1) \<longleftrightarrow>
        (fst (rev ?sl ! i) - 1) * fs_stride ?fs - 2 * fs_padding ?fs + fs_kernel ?fs
          \<noteq> fst (rev ?sl ! (i + 1))"
      unfolding deconv_estimate_def of_bool_eq_1_iff by (auto simp: algebra_simps)
    have z: "(of_bool ?op :: int) \<in> {0, 1}" by simp
    from e o z show ?thesis
      by (intro exI [of _ "fs_out_channels ?fs"] exI [of _ "fs_in_channels ?fs"]
          exI [of _ "fs_kernel ?fs"] exI [of _ "fs_stride ?fs"] exI [of _ "fs_padding ?fs"]
          exI [of _ ?op] conjI allI) (simp_all only: output_padding_pair.simps)
  qed
  have indep: "\<exists>m'. VisAutoEncoder specs nm c (H, W') dropout dv = Inr m'
                 \<and> decoder m' = decoder ?m" for W'
  proof -
    let ?sl' = "(H, W') # conv_sizes (H, W') specs"
    have m': "VisAutoEncoder specs nm c (H, W') dropout dv =
       Inr \<lparr>in_size = (H, W'), name = nm,
           encoder = (''batchnorm1'', BatchNorm2d c) # enc_blocks dropout dv 0 specs,
           decoder = dec_blocks (rev ?sl') 0 (rev specs)\<rparr>"
      using assms by (rule VisAutoEncoder_char)
    have "map fst (rev ?sl') = map fst (rev ?sl)"
      using conv_sizes_heights [of H W' specs W] by (simp add: rev_map [symmetric])
    then have "dec_blocks (rev ?sl') 0 (rev specs) = dec_blocks (rev ?sl) 0 (rev specs)"
      by (rule dec_blocks_heights) simp
    with m' show ?thesis by simp
  qed
  from b m layer indep show ?thesis by blast
qed

text \<open>Claim C8 at the layers of \<open>test_autoencoder\<close>, for input widths 256 and 255.\<close>

theorem output_padding_from_height_witness:
  "map fs_stride test_filter_channel_sizes = [1, 2, 2]
   \<and> (\<exists>m m'. VisAutoEncoder test_filter_channel_sizes ''default_model'' 3 (256, 256) True 0.2 = Inr m
         \<and> VisAutoEncoder test_filter_channel_sizes ''default_model'' 3 (256, 255) True 0.2 = Inr m'
         \<and> decoder m' = decoder m
         \<and> (\<exists>ci co k s p output_padding.
               filter is_deconv (map snd (decoder m)) ! 0 = ConvTranspose2d ci co k s p output_padding
               \<and> (of_bool output_padding :: int) \<in> {0, 1}))"
proof -
  have h: "\<forall>fs \<in> set test_filter_channel_sizes. fs_stride fs \<noteq> 0"
    by (simp add: test_filter_channel_sizes_def fs_stride_def)
  have st: "map fs_stride test_filter_channel_sizes = [1, 2, 2]"
    by (simp add: test_filter_channel_sizes_def fs_stride_def)
  from output_padding_from_height [OF h, of 3 256 256 True "0.2" "''default_model''"]
  obtain enc sl hw m where
    b: "build_encoder test_filter_channel_sizes 3 (256, 256) True 0.2 = Inr (enc, sl, hw)"
    and m: "VisAutoEncoder test_filter_channel_sizes ''default_model'' 3 (256, 256) True 0.2 = Inr m"
    and layer: "\<forall>i < length test_filter_channel_sizes. \<exists>ci co k s p output_padding.
                 filter is_deconv (map snd (decoder m)) ! i =
                   ConvTranspose2d ci co k s p output_padding
                 \<and> (of_bool output_padding :: int) \<in> {0, 1}
                 \<and> ((of_bool output_padding :: int) = 1 \<longleftrightarrow>
                      (fst (rev sl ! i) - 1) * s - 2 * p + k \<noteq> fst (rev sl ! (i + 1)))
                 \<and> output_padding_pair (ConvTranspose2d ci co k s p output_padding) =
                      Some (output_padding, output_padding)"
    and indep: "\<forall>W'. \<exists>m'. VisAutoEncoder test_filter_channel_sizes ''default_model'' 3 (256, W') True 0.2 = Inr m'
                 \<and> decoder m' = decoder m"
    by blast
  from indep obtain m' where
    m': "VisAutoEncoder test_filter_channel_sizes ''default_model'' 3 (256, 255) True 0.2 = Inr m'"
    and d: "decoder m' = decoder m" by blast
  have "0 < length test_filter_channel_sizes" by (simp add: test_filter_channel_sizes_def)
  with layer obtain ci co k s p output_padding where
    "filter is_deconv (map snd (decoder m)) ! 0 = ConvTranspose2d ci co k s p output_padding"
    "(of_bool output_padding :: int) \<in> {0, 1}"
    by blast
  with st m m' d show ?thesis by blast
qed

text \<open>
  Claim C9. The encoder starts with the batch normalisation over the \<open>in_channels\<close>
  argument, followed for each specification by its convolution, a dropout module if the
  flag is set, and an activation. The decoder has neither dropout nor batch normalisation:
  it alternates transposed convolutions and activations, whatever the flag.
\<close>

theorem dropout_only_in_encoder:
  assumes "\<forall>fs \<in> set specs. fs_stride fs \<noteq> 0"
  shows "\<exists>m. VisAutoEncoder specs nm c insz dropout dv = Inr m
           \<and> hd (encoder m) = (''batchnorm1'', BatchNorm2d c)
           \<and> map snd (encoder m) =
               BatchNorm2d c #
               concat (map (\<lambda>fs. Conv2d (fs_in_channels fs) (fs_out_channels fs) (fs_kernel fs)
                                    (fs_stride fs) (fs_padding fs)
                                  # (if dropout then [Dropout dv] else []) @ [ReLU]) specs)
           \<and> (\<forall>x \<in> set (map snd (decoder m)). \<not> is_dropout x \<and> \<not> is_batchnorm x)
           \<and> length (decoder m) = 2 * length specs
           \<and> (\<forall>j < length specs. is_deconv (snd (decoder m ! (2 * j)))
                 \<and> snd (decoder m ! (2 * j + 1)) = ReLU)"
proof -
  let ?dec = "dec_blocks (rev (insz # conv_sizes insz specs)) 0 (rev specs)"
  let ?enc = "(''batchnorm1'', BatchNorm2d c) # enc_blocks dropout dv 0 specs"
  have m: "VisAutoEncoder specs nm c insz dropout dv =
      Inr \<lparr>in_size = insz, name = nm, encoder = ?enc, decoder = ?dec\<rparr>"
    using assms by (rule VisAutoEncoder_char)
  have 1: "hd ?enc = (''batchnorm1'', BatchNorm2d c)" by simp
  have 2: "map snd ?enc = BatchNorm2d c #
               concat (map (\<lambda>fs. Conv2d (fs_in_channels fs) (fs_out_channels fs) (fs_kernel fs)
                                    (fs_stride fs) (fs_padding fs)
                                  # (if dropout then [Dropout dv] else []) @ [ReLU]) specs)"
    using modules_enc_blocks [of dropout dv 0 specs] by (simp add: conv_of_def)
  have 3: "\<not> is_dropout x \<and> \<not> is_batchnorm x" if "x \<in> set (map snd ?dec)" for x
    using dec_blocks_modules [OF that] by (cases x) auto
  have 4: "length ?dec = 2 * length specs" by (simp add: length_dec_blocks)
  have 5: "is_deconv (snd (?dec ! (2 * j))) \<and> snd (?dec ! (2 * j + 1)) = ReLU"
    if "j < length specs" for j
    using dec_blocks_nth [of j "rev specs" "rev (insz # conv_sizes insz specs)" 0] that
    by (simp add: deconv_of_def)
  from m 1 2 3 4 5 show ?thesis by simp
qed

text \<open>Claim C9 at the layers of \<open>test_autoencoder\<close>, with dropout enabled.\<close>

theorem dropout_only_in_encoder_witness:
  "map fs_stride test_filter_channel_sizes = [1, 2, 2]
   \<and> (\<exists>m. VisAutoEncoder test_filter_channel_sizes ''default_model'' 3 (256, 256) True 0.2 = Inr m
         \<and> hd (encoder m) = (''batchnorm1'', BatchNorm2d 3)
         \<and> map snd (encoder m) =
             [BatchNorm2d 3, Conv2d 3 128 7 1 4, Dropout 0.2, ReLU,
              Conv2d 128 256 3 2 2, Dropout 0.2, ReLU,
              Conv2d 256 512 3 2 2, Dropout 0.2, ReLU]
         \<and> length (decoder m) = 6)"
proof -
  have h: "\<forall>fs \<in> set test_filter_channel_sizes. fs_stride fs \<noteq> 0"
    by (simp add: test_filter_channel_sizes_def fs_stride_def)
  have st: "map fs_stride test_filter_channel_sizes = [1, 2, 2]"
    by (simp add: test_filter_channel_sizes_def fs_stride_def)
  from dropout_only_in_encoder [OF h, of "''default_model''" 3 "(256, 256)" True "0.2"]
  obtain m where all:
    "VisAutoEncoder test_filter_channel_sizes ''default_model'' 3 (256, 256) True 0.2 = Inr m
       \<and> hd (encoder m) = (''batchnorm1'', BatchNorm2d 3)
       \<and> map snd (encoder m) =
               BatchNorm2d 3 #
               concat (map (\<lambda>fs. Conv2d (fs_in_channels fs) (fs_out_channels fs) (fs_kernel fs)
                                    (fs_stride fs) (fs_padding fs)
                                  # (if True then [Dropout 0.2] else []) @ [ReLU])
                         test_filter_channel_sizes)
       \<and> (\<forall>x \<in> set (map snd (decoder m)). \<not> is_dropout x \<and> \<not> is_batchnorm x)
       \<and> length (decoder m) = 2 * length test_filter_channel_sizes
       \<and> (\<forall>j < length test_filter_channel_sizes. is_deconv (snd (decoder m ! (2 * j)))
                 \<and> snd (decoder m ! (2 * j + 1)) = ReLU)"
    by (rule exE)
  from all have m: "VisAutoEncoder test_filter_channel_sizes ''default_model'' 3 (256, 256) True 0.2 = Inr m"
    by (elim conjE)
  from all have bn: "hd (encoder m) = (''batchnorm1'', BatchNorm2d 3)"
    by (elim conjE)
  from all have enc_raw: "map snd (encoder m) =
               BatchNorm2d 3 #
               concat (map (\<lambda>fs. Conv2d (fs_in_channels fs) (fs_out_channels fs) (fs_kernel fs)
                                    (fs_stride fs) (fs_padding fs)
                                  # (if True then [Dropout 0.2] else []) @ [ReLU])
                         test_filter_channel_sizes)"
    by (elim conjE)
  from all have dec_raw: "length (decoder m) = 2 * length test_filter_channel_sizes"
    by (elim conjE)
  have enc_eq: "map snd (encoder m) =
             [BatchNorm2d 3, Conv2d 3 128 7 1 4, Dropout 0.2, ReLU,
              Conv2d 128 256 3 2 2, Dropout 0.2, ReLU,
              Conv2d 256 512 3 2 2, Dropout 0.2, ReLU]"
    unfolding enc_raw
    by (simp add: test_filter_channel_sizes_def fs_stride_def fs_kernel_def fs_padding_def
        fs_in_channels_def fs_out_channels_def)
  have dec_len: "length (decoder m) = 6" using dec_raw by (simp add: test_filter_channel_sizes_def)
  from st m bn enc_eq dec_len show ?thesis by (intro conjI exI [of _ m])
qed


section \<open>Properties of the pipeline\<close>

subsection \<open>Training never runs the decoder on centroids\<close>

lemma train_batches_events:
  "\<exists>n. events (snd (train_batches lib opt bs model w)) = events w @ replicate n Stepped"
proof (induction bs arbitrary: model w)
  case Nil
  show ?case by (intro exI [of _ 0]) simp
next
  case (Cons b bs)
  show ?case
  proof (cases "to_device lib b")
    case (Inl e)
    then show ?thesis by (intro exI [of _ 0]) simp
  next
    case moved: (Inr b')
    show ?thesis
    proof (cases "train_step lib opt (arch model) (state_dict model) b'")
      case (Inl e)
      with moved show ?thesis by (intro exI [of _ 0]) simp
    next
      case (Inr sd)
      from Cons.IH [of "model\<lparr>state_dict := sd\<rparr>" "log_event Stepped w"]
      obtain n where "events (snd (train_batches lib opt bs (model\<lparr>state_dict := sd\<rparr>) (log_event Stepped w)))
          = events (log_event Stepped w) @ replicate n Stepped" by blast
      then show ?thesis using Inr moved
        by (intro exI [of _ "Suc n"]) (simp add: log_event_def replicate_append_same)
    qed
  qed
qed

lemma count_list_replicate_other:
  "x \<noteq> y \<Longrightarrow> count_list (replicate n x) y = 0"
  by (induction n) simp_all

lemma train_batches_no_decode:
  "count_list (events (snd (train_batches lib opt bs model w))) Decoded = count_list (events w) Decoded"
proof -
  obtain n where "events (snd (train_batches lib opt bs model w)) = events w @ replicate n Stepped"
    using train_batches_events by blast
  then show ?thesis by (simp add: count_list_replicate_other)
qed

lemma save_no_decode:
  "count_list (events (save model w)) Decoded = count_list (events w) Decoded"
  by (simp add: save_def log_event_def Let_def)

lemma train_epochs_no_decode:
  "count_list (events (snd (train_epochs lib opt bs n model w))) Decoded = count_list (events w) Decoded"
proof (induction n arbitrary: model w)
  case 0
  show ?case by simp
next
  case (Suc n)
  obtain r w' where tb: "train_batches lib opt bs model w = (r, w')"
    by (cases "train_batches lib opt bs model w")
  have c: "count_list (events w') Decoded = count_list (events w) Decoded"
    using train_batches_no_decode [of lib opt bs model w] tb by simp
  show ?case
  proof (cases r)
    case (Inl e)
    with tb c show ?thesis by simp
  next
    case (Inr model')
    with tb c Suc.IH [of model' "save model' w'"] show ?thesis
      by (simp add: save_no_decode)
  qed
qed

lemma train_no_decode:
  "count_list (events (snd (train lib opt w))) Decoded = count_list (events w) Decoded"
  unfolding train_def
  by (simp add: train_epochs_no_decode log_event_def split: sum.splits)

subsection \<open>Encoding an image\<close>

lemma encode_image_quick_no_pair:
  "encode_image lib model image' True \<noteq> Inr r"
  unfolding encode_image_def
  by (simp split: sum.splits)

lemma encode_image_quick_unbound:
  assumes "forward_seq lib (encoder (arch model)) (state_dict model) image' = Inr encoding"
    and "tensor_sum lib [1, 2] encoding = Inr v"
  shows "encode_image lib model image' True = Inl (UnboundLocalError ''initial_shape'')"
  unfolding encode_image_def using assms by simp

lemma encode_loop_quick_raises:
  "bs \<noteq> [] \<Longrightarrow> encode_loop lib model True bs st \<noteq> Inr r"
proof (cases bs)
  case Nil
  assume "bs \<noteq> []"
  with Nil show ?thesis by simp
next
  case (Cons b rest)
  obtain i p where b: "b = (i, p)" by (cases b)
  obtain es l where st: "st = (es, l)" by (cases st)
  show ?thesis
  proof (cases "to_device lib i")
    case (Inl e)
    then show ?thesis unfolding Cons b st by simp
  next
    case (Inr moved)
    then show ?thesis unfolding Cons b st using encode_image_quick_no_pair [of lib model moved]
      by (cases "encode_image lib model moved True") auto
  qed
qed

lemma make_encodings_quick_raises:
  "fst (make_encodings lib model True datas w) \<noteq> Inr r"
proof (cases "batches datas")
  case Nil
  then show ?thesis unfolding make_encodings_def
    by (simp split: sum.splits)
next
  case (Cons b rest)
  then have "batches datas \<noteq> []" by simp
  from encode_loop_quick_raises [OF this, of lib model "([], None)"]
  show ?thesis unfolding make_encodings_def
    by (cases "encode_loop lib model True (batches datas) ([], None)") auto
qed

subsection \<open>The control flow of generate\_embeddings\<close>

lemma get_model_no_decode:
  "count_list (events (snd (get_model lib opt retrain w))) Decoded = count_list (events w) Decoded"
  unfolding get_model_def
  by (simp add: train_no_decode log_event_def split: option.splits sum.splits)

lemma make_encodings_events:
  "events (snd (make_encodings lib model quick datas w)) = events w"
  unfolding make_encodings_def
  by (simp split: sum.splits prod.splits option.splits)

lemma get_encodings_events:
  "events (snd (get_encodings lib model reencode quick datas w)) = events w"
  unfolding get_encodings_def
  by (simp add: make_encodings_events split: option.splits)

lemma generate_embeddings_label_images:
  assumes "generate_embeddings lib opt retrain reencode quick w = (Inr (datas, label_images), w')"
  shows "label_images = None \<longleftrightarrow> \<not> (reencode \<and> \<not> quick)"
  using assms unfolding generate_embeddings_def Let_def
  by (auto split: sum.splits prod.splits option.splits if_splits)

lemma get_encodings_eventsD:
  "get_encodings lib model reencode quick datas w = (r, w2) \<Longrightarrow> events w2 = events w"
  using get_encodings_events [of lib model reencode quick datas w] by simp

lemma generate_embeddings_no_decode:
  assumes "\<not> (reencode \<and> \<not> quick)"
  shows "count_list (events (snd (generate_embeddings lib opt retrain reencode quick w))) Decoded
           = count_list (events w) Decoded"
proof -
  obtain r1 w1 where gm: "get_model lib opt retrain w = (r1, w1)"
    by (cases "get_model lib opt retrain w")
  have c1: "count_list (events w1) Decoded = count_list (events w) Decoded"
    using get_model_no_decode [of lib opt retrain w] gm by simp
  show ?thesis
    using assms c1 unfolding generate_embeddings_def Let_def gm
    by (auto split: sum.splits prod.splits option.splits dest!: get_encodings_eventsD)
qed

section \<open>The claims about the pipeline\<close>

text \<open>
  Claim C6. When the loaded dataset's mode is not \<open>"image"\<close>, \<open>train\<close> raises an
  \<open>AttributeError\<close> and leaves the world as it was: no model has been constructed, no
  optimiser step taken, no checkpoint saved. So whenever \<open>train\<close> changes the world or
  returns a model, the mode is \<open>"image"\<close>.
\<close>

theorem train_only_image:
  assumes "DataLoader lib opt False = Inr datas"
  shows "(mode datas \<noteq> ''image'' \<longrightarrow>
            train lib opt w = (Inl (AttributeError (mode datas @ '' mode is not supported'')), w))
         \<and> (snd (train lib opt w) \<noteq> w \<longrightarrow> mode datas = ''image'')
         \<and> (\<forall>model w'. train lib opt w = (Inr model, w') \<longrightarrow> mode datas = ''image'')"
proof -
  have a: "train lib opt w = (Inl (AttributeError (mode datas @ '' mode is not supported'')), w)"
    if "mode datas \<noteq> ''image''"
    using that assms unfolding train_def by simp
  show ?thesis
  proof (cases "mode datas = ''image''")
    case True
    then show ?thesis by blast
  next
    case False
    from a [OF False] show ?thesis by simp
  qed
qed

text \<open>
  Claim C6 on the stand-in library: a dataset of mode \<open>"audio"\<close> is refused, and one of mode
  \<open>"image"\<close> has its model constructed, trained for two epochs and saved after each.
\<close>

theorem train_only_image_witness:
  "DataLoader (stub_library ''audio'') stub_options False
     = Inr \<lparr>mode = ''audio'', batches = [(0, ''a.png''), (1, ''b.png'')], data = []\<rparr>
   \<and> train (stub_library ''audio'') stub_options empty_world
       = (Inl (AttributeError ''audio mode is not supported''), empty_world)
   \<and> events (snd (train (stub_library ''image'') stub_options empty_world))
       = [Constructed, Stepped, Stepped, Saved ''ckpts/default_model.pt'',
          Stepped, Stepped, Saved ''ckpts/default_model.pt'']"
proof -
  have d: "DataLoader (stub_library ''audio'') stub_options False
     = Inr \<lparr>mode = ''audio'', batches = [(0, ''a.png''), (1, ''b.png'')], data = []\<rparr>"
    by (simp add: stub_library_def)
  have i: "events (snd (train (stub_library ''image'') stub_options empty_world))
       = [Constructed, Stepped, Stepped, Saved ''ckpts/default_model.pt'',
          Stepped, Stepped, Saved ''ckpts/default_model.pt'']"
    by code_simp
  from train_only_image [OF d, of empty_world] d i show ?thesis by simp
qed

text \<open>
  Claim C5 says that \<open>encode_image\<close> with \<open>quick = True\<close> returns a pair of the encoding
  vector and the shape of the encoder's output. It never returns a pair: when the encoder
  and the sum succeed the \<open>return\<close> statement raises \<open>UnboundLocalError\<close>, since
  \<open>initial_shape\<close> is assigned in the other branch only.
\<close>

theorem encode_image_quick_raises:
  "encode_image lib model image' True \<noteq> Inr r
   \<and> encode_image lib model image' True =
       (case forward_seq lib (encoder (arch model)) (state_dict model) image' of
          Inl e \<Rightarrow> Inl e
        | Inr encoding \<Rightarrow>
           (case tensor_sum lib [1, 2] encoding of
              Inl e \<Rightarrow> Inl e
            | Inr v \<Rightarrow> Inl (UnboundLocalError ''initial_shape'')))"
  unfolding encode_image_def
  by (simp split: sum.splits)

text \<open>
  Claim C10. Whenever \<open>generate_embeddings\<close> returns, its \<open>label_images\<close> is \<open>None\<close> exactly
  when it is not the case that \<open>reencode\<close> is set and \<open>quick\<close> is not; and in that case,
  whether it returns or raises, the decoder has not been run on any centroid.
\<close>

theorem label_images_gate:
  assumes "generate_embeddings lib opt retrain reencode quick w = (r, w')"
  shows "(\<forall>datas label_images. r = Inr (datas, label_images) \<longrightarrow>
            (label_images = None \<longleftrightarrow> \<not> (reencode \<and> \<not> quick)))
         \<and> (\<not> (reencode \<and> \<not> quick) \<longrightarrow>
              count_list (events w') Decoded = count_list (events w) Decoded)"
proof (intro conjI allI impI)
  fix datas label_images
  assume "r = Inr (datas, label_images)"
  with assms show "label_images = None \<longleftrightarrow> \<not> (reencode \<and> \<not> quick)"
    using generate_embeddings_label_images by blast
next
  assume "\<not> (reencode \<and> \<not> quick)"
  from generate_embeddings_no_decode [OF this, of lib opt retrain w] assms
  show "count_list (events w') Decoded = count_list (events w) Decoded" by simp
qed

text \<open>
  Claim C10 on the stand-in library: with \<open>reencode\<close> and without \<open>quick\<close> the two centroids
  are decoded; without \<open>reencode\<close>, reading the encodings from their file, \<open>label_images\<close> is
  \<open>None\<close> and the decoder has not run.
\<close>

theorem label_images_gate_witness:
  "fst (generate_embeddings (stub_library ''image'') stub_options False True False empty_world)
     = Inr (\<lparr>mode = ''image'', batches = [(0, ''a.png''), (1, ''b.png'')],
              data = [(''a.png'', 0), (''b.png'', 1)]\<rparr>,
            Some [(''label_0'', 0), (''label_1'', 0)])
   \<and> fst (generate_embeddings (stub_library ''image'') stub_options False False True csv_world)
     = Inr (\<lparr>mode = ''image'', batches = [(0, ''a.png''), (1, ''b.png'')],
              data = [(''a.png'', 7)]\<rparr>, None)
   \<and> count_list (events (snd (generate_embeddings (stub_library ''image'') stub_options
                                  False False True csv_world))) Decoded = 0"
proof -
  let ?X = "generate_embeddings (stub_library ''image'') stub_options False True False empty_world"
  let ?Y = "generate_embeddings (stub_library ''image'') stub_options False False True csv_world"
  have x: "fst ?X = Inr (\<lparr>mode = ''image'', batches = [(0, ''a.png''), (1, ''b.png'')],
              data = [(''a.png'', 0), (''b.png'', 1)]\<rparr>,
            Some [(''label_0'', 0), (''label_1'', 0)])"
    by code_simp
  have y: "fst ?Y = Inr (\<lparr>mode = ''image'', batches = [(0, ''a.png''), (1, ''b.png'')],
              data = [(''a.png'', 7)]\<rparr>, None)"
    by code_simp
  have "?Y = (fst ?Y, snd ?Y)" by simp
  from label_images_gate [OF this]
  have "count_list (events (snd ?Y)) Decoded = count_list (events csv_world) Decoded" by simp
  then have c: "count_list (events (snd ?Y)) Decoded = 0" by (simp add: csv_world_def)
  from x y c show ?thesis by (intro conjI)
qed

end
